theory Spec2Isabelle
  imports Main
begin

section \<open>Geometry input decoding of \<open>pyqgiswps/executors/io/geometryio.py\<close>\<close>

text \<open>
  The module turns a WPS input (a payload, a declared format, a declared CRS string) into a
  QGIS value: a geometry, a referenced geometry, a referenced point or a referenced
  rectangle. Its own logic is the pattern \<open>WKT_EXPR\<close>, the dispatch on the MIME type, and the
  order in which the primitives of QGIS and OGR are called. The primitives themselves are
  code of other libraries and enter the model as parameters.

  Strings are lists of \<^typ>\<open>char\<close>, that is, of code points below 256.
\<close>

subsection \<open>The fragment of Python's \<open>re\<close> that \<open>WKT_EXPR\<close> uses\<close>

text \<open>
  \<open>WKT_EXPR = re.compile(r"^\s*(?:CRS=(.*);)?(.*?)$")\<close> is compiled without flags. So
  \<open>.\<close> is any character but the line feed, \<open>\s\<close> is a whitespace character (for code
  points below 256: 9 to 13, 28 to 32, 0x85 and 0xA0), \<open>^\<close> holds at position 0 only,
  and \<open>$\<close> holds at the end of the string and just before a line feed that ends it.
\<close>

definition LF :: char where
  "LF = CHR 0x0A"

definition is_space :: "char \<Rightarrow> bool" where
  "is_space c = (c \<in> set [CHR 0x09, CHR 0x0A, CHR 0x0B, CHR 0x0C, CHR 0x0D,
                           CHR 0x1C, CHR 0x1D, CHR 0x1E, CHR 0x1F, CHR 0x20,
                           CHR 0x85, CHR 0xA0])"

definition is_dot :: "char \<Rightarrow> bool" where
  "is_dot c = (c \<noteq> LF)"

datatype cclass = AnyChar | Whitespace

fun in_class :: "cclass \<Rightarrow> char \<Rightarrow> bool" where
  "in_class AnyChar c = is_dot c"
| "in_class Whitespace c = is_space c"

datatype regex =
    Bol
  | Eol
  | Lit string
  | Star cclass
  | LazyStar cclass
  | Group nat regex
  | Opt regex
  | Cat regex regex

text \<open>
  A matcher state is the position reached, the input still to read, and the text of each
  capturing group (\<open>None\<close> while the group took no part in the match). The engine of
  \<open>re\<close> backtracks: \<open>run\<close> lists the states a pattern can end in, in the order in which
  the engine tries them, and the match is the first one.
\<close>

type_synonym mstate = "nat \<times> string \<times> string option list"

fun star_greedy :: "(char \<Rightarrow> bool) \<Rightarrow> nat \<Rightarrow> string \<Rightarrow> (nat \<times> string) list" where
  "star_greedy p n [] = [(n, [])]"
| "star_greedy p n (c # cs) =
     (if p c then star_greedy p (Suc n) cs @ [(n, c # cs)] else [(n, c # cs)])"

fun star_lazy :: "(char \<Rightarrow> bool) \<Rightarrow> nat \<Rightarrow> string \<Rightarrow> (nat \<times> string) list" where
  "star_lazy p n [] = [(n, [])]"
| "star_lazy p n (c # cs) =
     (n, c # cs) # (if p c then star_lazy p (Suc n) cs else [])"

fun run :: "regex \<Rightarrow> mstate \<Rightarrow> mstate list" where
  "run Bol (n, r, g) = (if n = 0 then [(n, r, g)] else [])"
| "run Eol (n, r, g) = (if r = [] \<or> r = [LF] then [(n, r, g)] else [])"
| "run (Lit w) (n, r, g) =
     (if take (length w) r = w then [(n + length w, drop (length w) r, g)] else [])"
| "run (Star c) (n, r, g) = map (\<lambda>(n', r'). (n', r', g)) (star_greedy (in_class c) n r)"
| "run (LazyStar c) (n, r, g) = map (\<lambda>(n', r'). (n', r', g)) (star_lazy (in_class c) n r)"
| "run (Group i e) (n, r, g) =
     map (\<lambda>(n', r', g'). (n', r', g'[i := Some (take (n' - n) r)])) (run e (n, r, g))"
| "run (Opt e) s = run e s @ [s]"
| "run (Cat a b) s = concat (map (run b) (run a s))"

text \<open>\<open>pattern.match(s)\<close>: the first state reached from position 0, or \<open>None\<close>.\<close>

definition re_match :: "nat \<Rightarrow> regex \<Rightarrow> string \<Rightarrow> string option list option" where
  "re_match k e s =
     (case run e (0, s, replicate k None) of
        [] \<Rightarrow> None
      | (n, r, g) # _ \<Rightarrow> Some g)"

text \<open>\<open>m.groups('')\<close>: the groups, with the empty string for a group that took no part.\<close>

definition groups :: "string option list \<Rightarrow> string list" where
  "groups g = map (\<lambda>x. case x of None \<Rightarrow> [] | Some t \<Rightarrow> t) g"

text \<open>
  The pattern, read from left to right: \<open>^\<close>, \<open>\s*\<close>, the optional
  \<open>(?:CRS=(.*);)?\<close> with the first group, then \<open>(.*?)$\<close> with the second. The two
  parts with a group have a name of their own, for the lemmas about them.
\<close>

definition CRS_PREFIX :: regex where
  "CRS_PREFIX = Cat (Lit ''CRS='') (Cat (Group 0 (Star AnyChar)) (Lit '';''))"

definition WKT_BODY :: regex where
  "WKT_BODY = Cat (Group 1 (LazyStar AnyChar)) Eol"

definition WKT_EXPR :: regex where
  "WKT_EXPR = Cat Bol (Cat (Star Whitespace) (Cat (Opt CRS_PREFIX) WKT_BODY))"

definition wkt_match :: "string \<Rightarrow> string list option" where
  "wkt_match s = map_option groups (re_match 2 WKT_EXPR s)"

subsection \<open>Inputs, values and errors\<close>

text \<open>
  \<open>Format\<close>, the input classes and the exception classes come from other modules of the
  package. An input has a payload \<open>data\<close> (a string for a complex input, a sequence for a
  bounding box), a declared format and a declared CRS string.
\<close>

record format =
  mime_type :: string

record 'd wps_input =
  data :: 'd
  data_format :: format
  crs :: string

datatype error =
    InvalidParameterValue string
  | NoApplicableCode string
  | IndexError
  | ValueError

text \<open>
  The values handed to the processing engine. \<open>QgsPointXY\<close> is the class of a point
  without CRS; it is what \<open>asPoint()\<close> returns, and the module wraps it in a
  \<open>QgsReferencedPointXY\<close>.
\<close>

datatype ('g, 'c, 'p) geom_value =
    QgsGeometry 'g
  | QgsReferencedGeometry 'g 'c
  | QgsPointXY 'p
  | QgsReferencedPointXY 'p 'c

datatype ('r, 'c) rect_value =
    QgsReferencedRectangle 'r 'c

subsection \<open>The primitives of QGIS, OGR and the format table\<close>

text \<open>
  What the module calls and does not define: \<open>QgsGeometry.fromWkt\<close> and \<open>isNull\<close>,
  the two constructors of \<open>QgsCoordinateReferenceSystem\<close> and \<open>isValid\<close>,
  \<open>g.centroid().asPoint()\<close>, the two parsers of OGR (\<open>None\<close> when OGR returns no
  geometry), \<open>GetSpatialReference\<close> and the two \<open>ExportToWkt\<close>, the MIME types of
  \<open>FORMATS\<close>, and the text that \<open>"%s" % data_format\<close> gives. Geometries, reference
  systems and points are type parameters.
\<close>

record ('g, 'c, 'p, 'o, 's) geolib =
  WKT_mime_type :: string
  GEOJSON_mime_type :: string
  GML_mime_type :: string
  format_str :: "format \<Rightarrow> string"
  fromWkt :: "string \<Rightarrow> 'g"
  isNull :: "'g \<Rightarrow> bool"
  QgsCoordinateReferenceSystem :: "string \<Rightarrow> 'c"
  crs_fromWkt :: "string \<Rightarrow> 'c"
  isValid :: "'c \<Rightarrow> bool"
  centroid_asPoint :: "'g \<Rightarrow> 'p"
  CreateGeometryFromJson :: "string \<Rightarrow> 'o option"
  CreateGeometryFromGML :: "string \<Rightarrow> 'o option"
  GetSpatialReference :: "'o \<Rightarrow> 's option"
  ExportToWkt :: "'o \<Rightarrow> string"
  srs_ExportToWkt :: "'s \<Rightarrow> string"

text \<open>
  For the extent: \<open>float(x)\<close> (\<open>None\<close> when it raises) and the constructor
  \<open>QgsRectangle(xMin, yMin, xMax, yMax)\<close>, with its arguments in the order of the QGIS
  signature.
\<close>

record ('v, 'n, 'r) numlib =
  to_float :: "'v \<Rightarrow> 'n option"
  QgsRectangle :: "'n \<Rightarrow> 'n \<Rightarrow> 'n \<Rightarrow> 'n \<Rightarrow> 'r"

subsection \<open>\<open>wkt_to_goeometry\<close>\<close>

definition wkt_to_goeometry ::
  "('g, 'c, 'p, 'o, 's) geolib \<Rightarrow> string \<Rightarrow> error + ('g, 'c, 'p) geom_value" where
  "wkt_to_goeometry L wkt =
     (case re_match 2 WKT_EXPR wkt of
        Some m \<Rightarrow>
          (let g = fromWkt L (groups m ! 1) in
           if \<not> isNull L g then
             (let crs = QgsCoordinateReferenceSystem L (groups m ! 0) in
              if isValid L crs then Inr (QgsReferencedGeometry g crs)
              else Inr (QgsGeometry g))
           else Inr (QgsGeometry g))
      | None \<Rightarrow> Inl (InvalidParameterValue ''Invalid wkt format''))"

subsection \<open>\<open>input_to_geometry\<close>\<close>

text \<open>The branch \<open>if geom:\<close>: the OGR geometry goes through WKT, its reference system too.\<close>

definition from_ogr ::
  "('g, 'c, 'p, 'o, 's) geolib \<Rightarrow> 'o \<Rightarrow> ('g, 'c, 'p) geom_value" where
  "from_ogr L geom =
     (let srs = GetSpatialReference L geom;
          g = fromWkt L (ExportToWkt L geom)
      in case srs of
           Some s \<Rightarrow>
             (let crs = crs_fromWkt L (srs_ExportToWkt L s) in
              if isValid L crs then QgsReferencedGeometry g crs else QgsGeometry g)
         | None \<Rightarrow> QgsGeometry g)"

text \<open>The \<open>if\<close>/\<open>elif\<close> that fills \<open>geom\<close>: an error, a geometry of OGR, or \<open>None\<close>.\<close>

definition parse_ogr ::
  "('g, 'c, 'p, 'o, 's) geolib \<Rightarrow> string wps_input \<Rightarrow> error + 'o option" where
  "parse_ogr L inp =
     (if mime_type (data_format inp) = GEOJSON_mime_type L then
        (case CreateGeometryFromJson L (data inp) of
           None \<Rightarrow> Inl (InvalidParameterValue ''Invalid geojson format'')
         | Some geom \<Rightarrow> Inr (Some geom))
      else if mime_type (data_format inp) = GML_mime_type L then
        (case CreateGeometryFromGML L (data inp) of
           None \<Rightarrow> Inl (InvalidParameterValue ''Invalid gml format'')
         | Some geom \<Rightarrow> Inr (Some geom))
      else Inr None)"

definition input_to_geometry ::
  "('g, 'c, 'p, 'o, 's) geolib \<Rightarrow> string wps_input \<Rightarrow> error + ('g, 'c, 'p) geom_value" where
  "input_to_geometry L inp =
     (if mime_type (data_format inp) = WKT_mime_type L then wkt_to_goeometry L (data inp)
      else
        (case parse_ogr L inp of
           Inl e \<Rightarrow> Inl e
         | Inr (Some geom) \<Rightarrow> Inr (from_ogr L geom)
         | Inr None \<Rightarrow>
             Inl (NoApplicableCode
                    (''Unsupported data format: '' @ format_str L (data_format inp)))))"

subsection \<open>\<open>input_to_point\<close> and \<open>input_to_extent\<close>\<close>

definition input_to_point ::
  "('g, 'c, 'p, 'o, 's) geolib \<Rightarrow> string wps_input \<Rightarrow> error + ('g, 'c, 'p) geom_value" where
  "input_to_point L inp =
     (case input_to_geometry L inp of
        Inl e \<Rightarrow> Inl e
      | Inr (QgsReferencedGeometry g c) \<Rightarrow> Inr (QgsReferencedPointXY (centroid_asPoint L g) c)
      | Inr v \<Rightarrow> Inr v)"

text \<open>\<open>float(r[i])\<close>: the index raises when it is out of range, \<open>float\<close> when it cannot convert.\<close>

definition float_at :: "('v, 'n, 'r) numlib \<Rightarrow> 'v list \<Rightarrow> nat \<Rightarrow> error + 'n" where
  "float_at N r i =
     (if i < length r then
        (case to_float N (r ! i) of None \<Rightarrow> Inl ValueError | Some x \<Rightarrow> Inr x)
      else Inl IndexError)"

definition input_to_extent ::
  "('g, 'c, 'p, 'o, 's) geolib \<Rightarrow> ('v, 'n, 'r) numlib \<Rightarrow> 'v list wps_input \<Rightarrow>
     error + ('r, 'c) rect_value" where
  "input_to_extent L N inp =
     (let r = data inp in
      case float_at N r 0 of Inl e \<Rightarrow> Inl e | Inr a0 \<Rightarrow>
     (case float_at N r 2 of Inl e \<Rightarrow> Inl e | Inr a2 \<Rightarrow>
     (case float_at N r 1 of Inl e \<Rightarrow> Inl e | Inr a1 \<Rightarrow>
     (case float_at N r 3 of Inl e \<Rightarrow> Inl e | Inr a3 \<Rightarrow>
        (let rect = QgsRectangle N a0 a2 a1 a3;
             ref = QgsCoordinateReferenceSystem L (crs inp)
         in Inr (QgsReferencedRectangle rect ref))))))"

subsection \<open>A sample of the primitives, for concrete runs\<close>

text \<open>
  A small table in place of QGIS and OGR: three geometries, one valid reference system.
  As in QGIS, \<open>fromWkt\<close> trims the text it is given, and the reference system built from
  the empty string is invalid.
\<close>

datatype sgeom = SNull | SPoint int int | SPolygon "(int \<times> int) list"

datatype scrs = SInvalid | SEpsg nat

definition trim :: "string \<Rightarrow> string" where
  "trim s = rev (dropWhile is_space (rev (dropWhile is_space s)))"

definition sample_fromWkt :: "string \<Rightarrow> sgeom" where
  "sample_fromWkt s =
     (let t = trim s in
      if t = ''POINT(1 2)'' \<or> t = ''POINT (1 2)'' then SPoint 1 2
      else if t = ''POINT(10 20)'' then SPoint 10 20
      else if t = ''POLYGON((0 0,4 0,4 4,0 4,0 0))''
        then SPolygon [(0, 0), (4, 0), (4, 4), (0, 4), (0, 0)]
      else SNull)"

fun sample_centroid :: "sgeom \<Rightarrow> int \<times> int" where
  "sample_centroid (SPoint x y) = (x, y)"
| "sample_centroid (SPolygon ps) = (2, 2)"
| "sample_centroid SNull = (0, 0)"

definition sample_json :: string where
  "sample_json = ''{'' @ [CHR 0x22] @ ''type'' @ [CHR 0x22] @ '':'' @ [CHR 0x22] @ ''Point''
     @ [CHR 0x22] @ '','' @ [CHR 0x22] @ ''coordinates'' @ [CHR 0x22] @ '':[1,2]}''"

definition sample_gml :: string where
  "sample_gml = ''<gml:Point><gml:coordinates>1,2</gml:coordinates></gml:Point>''"

definition sample_lib :: "(sgeom, scrs, int \<times> int, string \<times> string option, string) geolib" where
  "sample_lib = \<lparr>
     WKT_mime_type = ''application/wkt'',
     GEOJSON_mime_type = ''application/vnd.geo+json'',
     GML_mime_type = ''application/gml+xml'',
     format_str = mime_type,
     fromWkt = sample_fromWkt,
     isNull = (\<lambda>g. g = SNull),
     QgsCoordinateReferenceSystem = (\<lambda>s. if s = ''EPSG:4326'' then SEpsg 4326 else SInvalid),
     crs_fromWkt = (\<lambda>s. if s = ''GEOGCS[WGS 84]'' then SEpsg 4326 else SInvalid),
     isValid = (\<lambda>c. c \<noteq> SInvalid),
     centroid_asPoint = sample_centroid,
     CreateGeometryFromJson =
       (\<lambda>s. if s = sample_json then Some (''POINT (1 2)'', Some ''GEOGCS[WGS 84]'') else None),
     CreateGeometryFromGML =
       (\<lambda>s. if s = sample_gml then Some (''POINT (1 2)'', None) else None),
     GetSpatialReference = snd,
     ExportToWkt = fst,
     srs_ExportToWkt = (\<lambda>s. s) \<rparr>"

datatype pyval = PyInt int | PyStr string

fun sample_float :: "pyval \<Rightarrow> int option" where
  "sample_float (PyInt i) = Some i"
| "sample_float (PyStr s) = (if s = ''1'' then Some 1 else None)"

definition sample_num :: "(pyval, int, int \<times> int \<times> int \<times> int) numlib" where
  "sample_num = \<lparr>
     to_float = sample_float,
     QgsRectangle = (\<lambda>xMin yMin xMax yMax. (xMin, yMin, xMax, yMax)) \<rparr>"

definition wkt_input :: "string \<Rightarrow> string wps_input" where
  "wkt_input s = \<lparr> data = s, data_format = \<lparr> mime_type = ''application/wkt'' \<rparr>, crs = [] \<rparr>"

section \<open>The matcher\<close>

subsection \<open>The two stars, by position\<close>

lemma in_class_eta: "in_class AnyChar = is_dot" "in_class Whitespace = is_space"
  by (rule ext, simp)+

lemma upt_Suc_shift: "[0..<Suc (Suc m)] = 0 # map Suc [0..<Suc m]"
  by (metis map_Suc_upt upt_conv_Cons zero_less_Suc)

lemma star_lazy_upt:
  "star_lazy p n r = map (\<lambda>k. (n + k, drop k r)) [0..<Suc (length (takeWhile p r))]"
proof (induction r arbitrary: n)
  case Nil
  show ?case by simp
next
  case (Cons c cs)
  show ?case
  proof (cases "p c")
    case True
    then show ?thesis
      by (simp add: Cons.IH upt_Suc_shift o_def del: upt_Suc)
  next
    case False
    then show ?thesis by simp
  qed
qed

lemma star_greedy_upt:
  "star_greedy p n r = map (\<lambda>k. (n + k, drop k r)) (rev [0..<Suc (length (takeWhile p r))])"
proof (induction r arbitrary: n)
  case Nil
  show ?case by simp
next
  case (Cons c cs)
  show ?case
  proof (cases "p c")
    case True
    then show ?thesis
      by (simp add: Cons.IH upt_Suc_shift o_def rev_map del: upt_Suc)
  next
    case False
    then show ?thesis by simp
  qed
qed

lemma star_greedy_first:
  "\<exists>tl. star_greedy p n r = (n + length (takeWhile p r), dropWhile p r) # tl"
proof (induction r arbitrary: n)
  case Nil
  show ?case by simp
next
  case (Cons c cs)
  show ?case
  proof (cases "p c")
    case True
    from Cons.IH[of "Suc n"] obtain tl where
      "star_greedy p (Suc n) cs = (Suc n + length (takeWhile p cs), dropWhile p cs) # tl" by blast
    with True show ?thesis by simp
  next
    case False
    then show ?thesis by simp
  qed
qed

lemma star_greedy_mem:
  "(m, r') \<in> set (star_greedy p n r) \<longleftrightarrow>
     (\<exists>k\<le>length (takeWhile p r). m = n + k \<and> r' = drop k r)"
  by (auto simp: star_greedy_upt less_Suc_eq_le simp del: upt_Suc)

lemma star_lazy_mem:
  "(m, r') \<in> set (star_lazy p n r) \<longleftrightarrow>
     (\<exists>k\<le>length (takeWhile p r). m = n + k \<and> r' = drop k r)"
  by (auto simp: star_lazy_upt less_Suc_eq_le simp del: upt_Suc)

lemma take_below_takeWhile:
  assumes "k \<le> length (takeWhile p r)" and "c \<in> set (take k r)"
  shows "p c"
proof -
  have "take k r = take k (takeWhile p r)"
    using assms(1) by (metis min.absorb1 takeWhile_eq_take take_take)
  with assms(2) show ?thesis
    by (metis in_set_takeD set_takeWhileD)
qed

lemma lazy_eol_iff:
  "(\<exists>k\<le>length (takeWhile is_dot r). drop k r = [] \<or> drop k r = [LF]) \<longleftrightarrow>
     LF \<notin> set (butlast r)"
proof
  assume "\<exists>k\<le>length (takeWhile is_dot r). drop k r = [] \<or> drop k r = [LF]"
  then obtain k where k: "k \<le> length (takeWhile is_dot r)"
    and d: "drop k r = [] \<or> drop k r = [LF]" by blast
  have nolf: "LF \<notin> set (take k r)"
    using take_below_takeWhile[OF k, of LF] by (auto simp: is_dot_def)
  have r: "r = take k r @ drop k r" by simp
  from d show "LF \<notin> set (butlast r)"
  proof
    assume "drop k r = []"
    with r have "r = take k r" by simp
    with nolf have "LF \<notin> set r" by simp
    then show ?thesis using in_set_butlastD by metis
  next
    assume "drop k r = [LF]"
    with r have "r = take k r @ [LF]" by simp
    then have "butlast r = take k r" by (metis butlast_snoc)
    with nolf show ?thesis by simp
  qed
next
  assume b: "LF \<notin> set (butlast r)"
  show "\<exists>k\<le>length (takeWhile is_dot r). drop k r = [] \<or> drop k r = [LF]"
  proof (cases "LF \<in> set r")
    case False
    then have "takeWhile is_dot r = r"
      by (simp add: takeWhile_eq_all_conv is_dot_def) metis
    then have "length r \<le> length (takeWhile is_dot r)" by (simp only: order_refl)
    moreover have "drop (length r) r = []" by simp
    ultimately show ?thesis by blast
  next
    case True
    then have ne: "r \<noteq> []" by auto
    then have r: "r = butlast r @ [last r]" by simp
    with True b have l: "last r = LF" by (metis Un_iff empty_iff empty_set set_ConsD set_append)
    have "takeWhile is_dot (butlast r @ [LF]) = butlast r"
      using b by (simp add: takeWhile_tail takeWhile_eq_all_conv is_dot_def) metis
    with r l have tw: "takeWhile is_dot r = butlast r" by simp
    have "drop (length (butlast r)) (butlast r @ [LF]) = [LF]" by simp
    with r l have "drop (length (butlast r)) r = [LF]" by simp
    with tw show ?thesis by (metis order_refl)
  qed
qed

lemma concat_map_nonempty: "concat (map f xs) \<noteq> [] \<longleftrightarrow> (\<exists>x\<in>set xs. f x \<noteq> [])"
  by (induction xs) auto

lemma run_body_unfold:
  "run WKT_BODY (n, r, g) =
     concat (map (\<lambda>x. if snd x = [] \<or> snd x = [LF]
                       then [(fst x, snd x, g[Suc 0 := Some (take (fst x - n) r)])] else [])
                 (star_lazy is_dot n r))"
  by (simp add: WKT_BODY_def in_class_eta o_def split_def)

lemma run_body_nonempty:
  "run WKT_BODY (n, r, g) \<noteq> [] \<longleftrightarrow> LF \<notin> set (butlast r)"
proof -
  have "run WKT_BODY (n, r, g) \<noteq> [] \<longleftrightarrow>
        (\<exists>x\<in>set (star_lazy is_dot n r). snd x = [] \<or> snd x = [LF])"
    unfolding run_body_unfold concat_map_nonempty by (simp add: split_def)
  also have "\<dots> \<longleftrightarrow>
        (\<exists>m r'. (m, r') \<in> set (star_lazy is_dot n r) \<and> (r' = [] \<or> r' = [LF]))"
    by force
  also have "\<dots> \<longleftrightarrow> (\<exists>k\<le>length (takeWhile is_dot r). drop k r = [] \<or> drop k r = [LF])"
    unfolding star_lazy_mem by blast
  finally show ?thesis by (simp only: lazy_eol_iff)
qed

lemma run_body_exact:
  assumes "LF \<notin> set r"
  shows "run WKT_BODY (n, r, g) =
           [(n + length r, [], g[Suc 0 := Some r])]"
proof -
  have tw: "takeWhile is_dot r = r"
    using assms by (simp add: takeWhile_eq_all_conv is_dot_def) metis
  have no: "drop k r \<noteq> [] \<and> drop k r \<noteq> [LF]" if "k < length r" for k
    using that assms by (metis drop_eq_Nil in_set_dropD list.set_intros(1) not_le)
  have "concat (map (\<lambda>k. if drop k r = [] \<or> drop k r = [LF]
                          then [(n + k, drop k r, g[Suc 0 := Some (take k r)])] else [])
                  [0..<length r]) = []"
    using no by simp
  then show ?thesis
    by (simp add: run_body_unfold star_lazy_upt tw o_def)
qed


text \<open>The prefix \<open>CRS=(.*);\<close>.\<close>

lemma run_prefix_unfold:
  "run CRS_PREFIX (n, r, g) =
     (if take 4 r = ''CRS='' then
        concat (map (\<lambda>x. if take (Suc 0) (snd x) = '';''
                          then [(Suc (fst x), drop (Suc 0) (snd x),
                                 g[0 := Some (take (fst x - (n + 4)) (drop 4 r))])]
                          else [])
                    (star_greedy is_dot (n + 4) (drop 4 r)))
      else [])"
  by (simp add: CRS_PREFIX_def in_class_eta o_def split_def eval_nat_numeral cong: if_cong)

lemma run_prefix_mem:
  assumes "(n', r', g') \<in> set (run CRS_PREFIX (n, r, g))"
  shows "\<exists>x. r = ''CRS='' @ x @ '';'' @ r' \<and> LF \<notin> set x"
proof -
  from assms have t4: "take 4 r = ''CRS=''"
    by (auto simp: run_prefix_unfold split: if_splits)
  from assms t4 obtain m r1 where
    mem: "(m, r1) \<in> set (star_greedy is_dot (n + 4) (drop 4 r))"
    and semi: "take (Suc 0) r1 = '';''" and r': "r' = drop (Suc 0) r1"
    by (auto simp: run_prefix_unfold split: if_splits)
  from mem obtain k where k: "k \<le> length (takeWhile is_dot (drop 4 r))"
    and r1: "r1 = drop k (drop 4 r)"
    unfolding star_greedy_mem by blast
  let ?x = "take k (drop 4 r)"
  have nolf: "LF \<notin> set ?x"
    using take_below_takeWhile[OF k, of LF] by (auto simp: is_dot_def)
  have "r1 = take (Suc 0) r1 @ drop (Suc 0) r1" by (simp only: append_take_drop_id)
  with semi r' have r1': "r1 = '';'' @ r'" by simp
  have "r = take 4 r @ (?x @ drop k (drop 4 r))" by (simp only: append_take_drop_id)
  with t4 r1 r1' have "r = ''CRS='' @ ?x @ '';'' @ r'" by simp
  with nolf show ?thesis by blast
qed

lemma greedy_first_hit:
  assumes "\<forall>a\<in>set x. p a" and "p c"
    and "\<And>m k. f (m, drop k y) = []"
    and "f (n + length x, c # y) = [v]"
  shows "\<exists>tl. concat (map f (star_greedy p n (x @ c # y))) = v # tl"
  using assms(1,4)
proof (induction x arbitrary: n)
  case Nil
  have z: "concat (map f (star_greedy p (Suc n) y)) = []"
    using assms(3) by (auto simp: star_greedy_mem)
  have "star_greedy p n ([] @ c # y) = star_greedy p (Suc n) y @ [(n, c # y)]"
    using assms(2) by simp
  then have "concat (map f (star_greedy p n ([] @ c # y))) =
               concat (map f (star_greedy p (Suc n) y)) @ f (n, c # y)"
    by simp
  also have "\<dots> = [v]"
    using Nil(2) by (simp only: z) simp
  finally show ?case by blast
next
  case (Cons a x)
  from Cons.prems have "\<forall>a\<in>set x. p a" and "f (Suc n + length x, c # y) = [v]" by simp_all
  from Cons.IH[OF this] obtain tl where
    "concat (map f (star_greedy p (Suc n) (x @ c # y))) = v # tl" by blast
  with Cons.prems show ?case by simp
qed

lemma run_prefix_first:
  assumes "LF \<notin> set x" and "CHR '';'' \<notin> set y"
  shows "\<exists>tl. run CRS_PREFIX (n, ''CRS='' @ x @ '';'' @ y, g) =
           (n + 5 + length x, y, g[0 := Some x]) # tl"
proof -
  let ?f = "\<lambda>z. if take (Suc 0) (snd z) = '';''
                 then [(Suc (fst z), drop (Suc 0) (snd z),
                        g[0 := Some (take (fst z - (n + 4)) (x @ CHR '';'' # y))])]
                 else []"
  have d4: "drop 4 (''CRS='' @ x @ '';'' @ y) = x @ CHR '';'' # y" by simp
  have t4: "take 4 (''CRS='' @ x @ '';'' @ y) = ''CRS=''" by simp
  have dots: "\<forall>a\<in>set x. is_dot a" using assms(1) by (auto simp: is_dot_def)
  have semi: "is_dot (CHR '';'')" by (simp add: is_dot_def LF_def)
  have miss: "?f (m, drop k y) = []" for m k
  proof -
    have "take (Suc 0) (drop k y) \<noteq> '';''"
    proof
      assume "take (Suc 0) (drop k y) = '';''"
      then have "CHR '';'' \<in> set (take (Suc 0) (drop k y))" by simp
      then have "CHR '';'' \<in> set y" by (metis in_set_dropD in_set_takeD)
      with assms(2) show False by simp
    qed
    then show ?thesis by simp
  qed
  have hit: "?f (n + 4 + length x, CHR '';'' # y) = [(n + 5 + length x, y, g[0 := Some x])]"
    by simp
  from greedy_first_hit[of x is_dot "CHR '';''" ?f y "n + 4", OF dots semi miss hit]
  obtain tl where
    "concat (map ?f (star_greedy is_dot (n + 4) (x @ CHR '';'' # y))) =
       (n + 5 + length x, y, g[0 := Some x]) # tl" by blast
  then have "run CRS_PREFIX (n, ''CRS='' @ x @ '';'' @ y, g) =
               (n + 5 + length x, y, g[0 := Some x]) # tl"
    unfolding run_prefix_unfold d4 t4 by simp
  then show ?thesis by blast
qed

subsection \<open>The whole pattern\<close>

lemma run_WKT_unfold:
  "run WKT_EXPR (0, s, g) =
     concat (map (\<lambda>x. concat (map (run WKT_BODY)
                               (run CRS_PREFIX (fst x, snd x, g) @ [(fst x, snd x, g)])))
                 (star_greedy is_space 0 s))"
  by (simp add: WKT_EXPR_def in_class_eta o_def split_def)

lemma run_WKT_first:
  assumes "concat (map (run WKT_BODY)
             (run CRS_PREFIX (length (takeWhile is_space s), dropWhile is_space s, g)
                @ [(length (takeWhile is_space s), dropWhile is_space s, g)])) = v # vs"
  shows "\<exists>tl. run WKT_EXPR (0, s, g) = v # tl"
proof -
  from star_greedy_first[of is_space 0 s] obtain tl where
    "star_greedy is_space 0 s = (length (takeWhile is_space s), dropWhile is_space s) # tl"
    by auto
  with assms show ?thesis by (simp add: run_WKT_unfold)
qed

lemma re_match_first:
  assumes "run e (0, s, replicate k None) = (n, r, g) # ts"
  shows "re_match k e s = Some g"
  using assms by (simp add: re_match_def)

lemma wkt_match_no_prefix:
  assumes "LF \<notin> set (dropWhile is_space s)"
    and "take 4 (dropWhile is_space s) \<noteq> ''CRS=''"
  shows "re_match 2 WKT_EXPR s = Some [None, Some (dropWhile is_space s)]"
proof -
  let ?t = "dropWhile is_space s" and ?W = "length (takeWhile is_space s)"
  let ?g = "replicate 2 (None :: string option)"
  have "run CRS_PREFIX (?W, ?t, ?g) = []"
    using assms(2) by (simp add: run_prefix_unfold)
  then have "concat (map (run WKT_BODY) (run CRS_PREFIX (?W, ?t, ?g) @ [(?W, ?t, ?g)])) =
          (?W + length ?t, [], ?g[Suc 0 := Some ?t]) # []"
    using run_body_exact[OF assms(1), of ?W ?g] by simp
  from run_WKT_first[OF this] obtain tl where
    "run WKT_EXPR (0, s, ?g) = (?W + length ?t, [], ?g[Suc 0 := Some ?t]) # tl" by blast
  from re_match_first[OF this] show ?thesis by (simp add: eval_nat_numeral)
qed

lemma wkt_match_prefix:
  assumes "\<forall>c\<in>set ws. is_space c" and "LF \<notin> set x" and "LF \<notin> set y"
    and "CHR '';'' \<notin> set y"
  shows "re_match 2 WKT_EXPR (ws @ ''CRS='' @ x @ '';'' @ y) = Some [Some x, Some y]"
proof -
  let ?s = "ws @ ''CRS='' @ x @ '';'' @ y"
  let ?g = "replicate 2 (None :: string option)"
  have nsp: "\<not> is_space (CHR ''C'')" by (simp add: is_space_def)
  have tw: "takeWhile is_space ?s = ws"
    using assms(1) nsp by (simp add: takeWhile_append2)
  have dw: "dropWhile is_space ?s = ''CRS='' @ x @ '';'' @ y"
    using assms(1) nsp by (simp add: dropWhile_append2)
  from run_prefix_first[OF assms(2,4), of "length ws" ?g] obtain tl where
    p: "run CRS_PREFIX (length ws, ''CRS='' @ x @ '';'' @ y, ?g) =
          (length ws + 5 + length x, y, ?g[0 := Some x]) # tl" by blast
  have "concat (map (run WKT_BODY)
          (run CRS_PREFIX (length (takeWhile is_space ?s), dropWhile is_space ?s, ?g)
             @ [(length (takeWhile is_space ?s), dropWhile is_space ?s, ?g)])) =
        (length ws + 5 + length x + length y, [], ?g[0 := Some x, Suc 0 := Some y]) #
          concat (map (run WKT_BODY) (tl @ [(length ws, ''CRS='' @ x @ '';'' @ y, ?g)]))"
    unfolding tw dw p using run_body_exact[OF assms(3), of "length ws + 5 + length x" "?g[0 := Some x]"]
    by simp
  from run_WKT_first[OF this] obtain tl' where
    "run WKT_EXPR (0, ?s, ?g) =
       (length ws + 5 + length x + length y, [], ?g[0 := Some x, Suc 0 := Some y]) # tl'"
    by blast
  from re_match_first[OF this] show ?thesis by (simp add: eval_nat_numeral)
qed

lemma butlast_drop_nolf:
  assumes "LF \<notin> set (butlast xs)"
  shows "LF \<notin> set (butlast (drop m xs))"
  using assms by (metis butlast_drop in_set_dropD)

lemma wkt_match_iff:
  "re_match 2 WKT_EXPR s \<noteq> None \<longleftrightarrow> LF \<notin> set (butlast (dropWhile is_space s))"
proof -
  let ?g = "replicate 2 (None :: string option)"
  let ?W = "length (takeWhile is_space s)"
  have m: "re_match 2 WKT_EXPR s \<noteq> None \<longleftrightarrow> run WKT_EXPR (0, s, ?g) \<noteq> []"
    by (simp add: re_match_def split: list.splits)
  have dw: "dropWhile is_space s = drop ?W s" by (rule dropWhile_eq_drop)
  show ?thesis
  proof
    assume "re_match 2 WKT_EXPR s \<noteq> None"
    with m have "run WKT_EXPR (0, s, ?g) \<noteq> []" by simp
    then obtain st where st: "st \<in> set (star_greedy is_space 0 s)"
      and ne: "concat (map (run WKT_BODY)
                 (run CRS_PREFIX (fst st, snd st, ?g) @ [(fst st, snd st, ?g)])) \<noteq> []"
      unfolding run_WKT_unfold concat_map_nonempty by blast
    from st obtain k where k: "k \<le> ?W" and r: "snd st = drop k s"
      using star_greedy_mem[of "fst st" "snd st" is_space 0 s] by auto
    from ne obtain st2 where
      st2: "st2 \<in> set (run CRS_PREFIX (fst st, snd st, ?g)) \<or> st2 = (fst st, snd st, ?g)"
      and ne2: "run WKT_BODY st2 \<noteq> []"
      unfolding concat_map_nonempty by auto
    obtain n2 r2 g2 where s2: "st2 = (n2, r2, g2)" by (cases st2) auto
    from ne2 s2 have b2: "LF \<notin> set (butlast r2)" by (simp add: run_body_nonempty)
    have "LF \<notin> set (butlast (snd st))"
    proof (cases "st2 = (fst st, snd st, ?g)")
      case True
      with s2 b2 show ?thesis by simp
    next
      case False
      with st2 s2 have "(n2, r2, g2) \<in> set (run CRS_PREFIX (fst st, snd st, ?g))" by blast
      from run_prefix_mem[OF this] obtain x where
        x: "snd st = ''CRS='' @ x @ '';'' @ r2" and nx: "LF \<notin> set x" by blast
      have "butlast ((''CRS='' @ x @ '';'') @ r2) =
              (if r2 = [] then butlast (''CRS='' @ x @ '';'') else (''CRS='' @ x @ '';'') @ butlast r2)"
        by (rule butlast_append)
      moreover have "LF \<notin> set (''CRS='' @ x @ '';'')" using nx by (simp add: LF_def)
      ultimately have "LF \<notin> set (butlast ((''CRS='' @ x @ '';'') @ r2))"
        using b2 by (metis Un_iff in_set_butlastD set_append)
      with x show ?thesis by simp
    qed
    with r have "LF \<notin> set (butlast (drop k s))" by simp
    from butlast_drop_nolf[OF this, of "?W - k"] k
    show "LF \<notin> set (butlast (dropWhile is_space s))" by (simp add: dw)
  next
    assume a: "LF \<notin> set (butlast (dropWhile is_space s))"
    from star_greedy_first[of is_space 0 s] have
      mem: "(?W, dropWhile is_space s) \<in> set (star_greedy is_space 0 s)" by auto
    have "run WKT_BODY (?W, dropWhile is_space s, ?g) \<noteq> []"
      using a by (simp add: run_body_nonempty)
    then have "concat (map (run WKT_BODY)
                 (run CRS_PREFIX (?W, dropWhile is_space s, ?g)
                    @ [(?W, dropWhile is_space s, ?g)])) \<noteq> []"
      unfolding concat_map_nonempty by simp
    with mem have "run WKT_EXPR (0, s, ?g) \<noteq> []"
      unfolding run_WKT_unfold concat_map_nonempty by force
    with m show "re_match 2 WKT_EXPR s \<noteq> None" by simp
  qed
qed

subsection \<open>Groups and the branches of \<open>wkt_to_goeometry\<close>\<close>

lemma run_length:
  "(n', r', g') \<in> set (run e (n, r, g)) \<Longrightarrow> length g' = length g"
proof (induction e arbitrary: n r g n' r' g')
  case (Cat a b)
  from Cat.prems obtain st where st: "st \<in> set (run a (n, r, g))"
    and mem: "(n', r', g') \<in> set (run b st)" by auto
  obtain n1 r1 g1 where s1: "st = (n1, r1, g1)" by (cases st) auto
  from Cat.IH(1)[of n1 r1 g1 n r g] st s1 have "length g1 = length g" by simp
  moreover from Cat.IH(2)[of n' r' g' n1 r1 g1] mem s1 have "length g' = length g1" by simp
  ultimately show ?case by simp
next
  case (Group i e)
  then show ?case by fastforce
next
  case (Opt e)
  then show ?case by auto
qed (auto split: if_splits)

lemma re_match_length:
  assumes "re_match k e s = Some m"
  shows "length m = k"
proof -
  from assms obtain n r ts where "run e (0, s, replicate k None) = (n, r, m) # ts"
    by (auto simp: re_match_def split: list.splits)
  then have "(n, r, m) \<in> set (run e (0, s, replicate k None))" by simp
  from run_length[OF this] show ?thesis by simp
qed

lemma groups_nth:
  assumes "i < length m"
  shows "groups m ! i = (case m ! i of None \<Rightarrow> [] | Some t \<Rightarrow> t)"
  using assms by (simp add: groups_def)

lemma wkt_to_goeometry_plain:
  assumes "re_match 2 WKT_EXPR s = Some m"
    and "\<not> isValid L (QgsCoordinateReferenceSystem L (groups m ! 0))"
  shows "wkt_to_goeometry L s = Inr (QgsGeometry (fromWkt L (groups m ! 1)))"
  using assms by (simp add: wkt_to_goeometry_def Let_def)

lemma wkt_to_goeometry_error_iff:
  "wkt_to_goeometry L s = Inl e \<longleftrightarrow>
     re_match 2 WKT_EXPR s = None \<and> e = InvalidParameterValue ''Invalid wkt format''"
  by (auto simp: wkt_to_goeometry_def Let_def split: option.splits)

lemma input_to_point_plain:
  "input_to_geometry L inp = Inr (QgsGeometry g) \<Longrightarrow> input_to_point L inp = Inr (QgsGeometry g)"
  by (simp add: input_to_point_def)

section \<open>The claims\<close>

subsection \<open>C1: a WKT body that gives a null geometry\<close>

text \<open>
  C1 says that a WKT input whose body yields a null geometry makes \<open>input_to_geometry\<close>
  fail with \<open>InvalidParameterValue\<close>. The code tests \<open>isNull\<close> only to skip the CRS, and
  \<open>return g\<close> stands outside that test: on the body \<open>POINT(\<close> the pattern matches, the
  geometry is null, and the null geometry is the value returned. The GeoJSON and GML
  branches of the same function raise when their parser gives nothing.
\<close>

theorem wkt_null_geometry_returned:
  assumes "mime_type (data_format inp) = WKT_mime_type L"
    and "data inp = ''POINT(''"
    and "isNull L (fromWkt L ''POINT('')"
  shows "input_to_geometry L inp = Inr (QgsGeometry (fromWkt L ''POINT(''))"
proof -
  have "re_match 2 WKT_EXPR ''POINT('' = Some [None, Some ''POINT('']"
    by code_simp
  with assms show ?thesis
    by (simp add: input_to_geometry_def wkt_to_goeometry_def groups_def)
qed

text \<open>The same run on the sample primitives.\<close>

theorem wkt_null_geometry_returned_witness:
  "input_to_geometry sample_lib (wkt_input ''POINT('') = Inr (QgsGeometry SNull)"
proof -
  have 1: "mime_type (data_format (wkt_input ''POINT('')) = WKT_mime_type sample_lib"
    by (simp add: wkt_input_def sample_lib_def)
  have 2: "data (wkt_input ''POINT('') = ''POINT(''" by (simp add: wkt_input_def)
  have 3: "fromWkt sample_lib ''POINT('' = SNull" by code_simp
  then have 4: "isNull sample_lib (fromWkt sample_lib ''POINT('')" by (simp add: sample_lib_def)
  from wkt_null_geometry_returned[OF 1 2 4] 3 show ?thesis by simp
qed

subsection \<open>C2: \<open>input_to_point\<close>\<close>

text \<open>
  C2 as stated: when the decoded geometry has no CRS, the result is a point without CRS
  at the centroid. It fails on a polygon without CRS prefix: the decoded geometry is the
  polygon, its centroid is (2, 2), and \<open>input_to_point\<close> returns the polygon itself,
  neither the point (2, 2) nor a point geometry at (2, 2).
\<close>

theorem input_to_point_plain_polygon_counterexample:
  "input_to_geometry sample_lib (wkt_input ''POLYGON((0 0,4 0,4 4,0 4,0 0))'') =
     Inr (QgsGeometry (SPolygon [(0, 0), (4, 0), (4, 4), (0, 4), (0, 0)])) \<and>
   centroid_asPoint sample_lib (SPolygon [(0, 0), (4, 0), (4, 4), (0, 4), (0, 0)]) = (2, 2) \<and>
   input_to_point sample_lib (wkt_input ''POLYGON((0 0,4 0,4 4,0 4,0 0))'') =
     Inr (QgsGeometry (SPolygon [(0, 0), (4, 0), (4, 4), (0, 4), (0, 0)])) \<and>
   input_to_point sample_lib (wkt_input ''POLYGON((0 0,4 0,4 4,0 4,0 0))'') \<noteq>
     Inr (QgsPointXY (2, 2)) \<and>
   input_to_point sample_lib (wkt_input ''POLYGON((0 0,4 0,4 4,0 4,0 0))'') \<noteq>
     Inr (QgsGeometry (SPoint 2 2))"
  by code_simp

text \<open>
  C2 as amended: a referenced geometry becomes the referenced point at its centroid with
  the same CRS; a geometry without CRS is returned unchanged, no CRS added and no
  centroid taken; an error of \<open>input_to_geometry\<close> is the error of \<open>input_to_point\<close>.
\<close>

theorem input_to_point_by_cases:
  "(input_to_geometry L inp = Inr (QgsReferencedGeometry g c) \<longrightarrow>
      input_to_point L inp = Inr (QgsReferencedPointXY (centroid_asPoint L g) c)) \<and>
   (input_to_geometry L inp = Inr (QgsGeometry g) \<longrightarrow>
      input_to_point L inp = Inr (QgsGeometry g)) \<and>
   (input_to_geometry L inp = Inl e \<longrightarrow> input_to_point L inp = Inl e)"
  by (simp add: input_to_point_def)

text \<open>The three cases on the sample primitives.\<close>

theorem input_to_point_by_cases_witness:
  "input_to_point sample_lib (wkt_input ''CRS=EPSG:4326;POLYGON((0 0,4 0,4 4,0 4,0 0))'') =
     Inr (QgsReferencedPointXY (2, 2) (SEpsg 4326)) \<and>
   input_to_point sample_lib (wkt_input ''POINT(10 20)'') = Inr (QgsGeometry (SPoint 10 20)) \<and>
   input_to_point sample_lib (wkt_input (''POINT(10'' @ [LF] @ ''20)'')) =
     Inl (InvalidParameterValue ''Invalid wkt format'')"
proof -
  let ?poly = "SPolygon [(0, 0), (4, 0), (4, 4), (0, 4), (0, 0)]"
  have 1: "input_to_geometry sample_lib
             (wkt_input ''CRS=EPSG:4326;POLYGON((0 0,4 0,4 4,0 4,0 0))'') =
           Inr (QgsReferencedGeometry ?poly (SEpsg 4326))"
    by code_simp
  have 2: "input_to_geometry sample_lib (wkt_input ''POINT(10 20)'') =
           Inr (QgsGeometry (SPoint 10 20))"
    by code_simp
  have 3: "input_to_geometry sample_lib (wkt_input (''POINT(10'' @ [LF] @ ''20)'')) =
           Inl (InvalidParameterValue ''Invalid wkt format'')"
    by code_simp
  have c: "centroid_asPoint sample_lib ?poly = (2, 2)" by (simp add: sample_lib_def)
  from input_to_point_by_cases[where L = sample_lib and g = ?poly and c = "SEpsg 4326"] 1 c
  have a: "input_to_point sample_lib
             (wkt_input ''CRS=EPSG:4326;POLYGON((0 0,4 0,4 4,0 4,0 0))'') =
           Inr (QgsReferencedPointXY (2, 2) (SEpsg 4326))"
    by simp
  from input_to_point_by_cases[where L = sample_lib and g = "SPoint 10 20"] 2
  have b: "input_to_point sample_lib (wkt_input ''POINT(10 20)'') =
           Inr (QgsGeometry (SPoint 10 20))"
    by blast
  from input_to_point_by_cases[where L = sample_lib and e = "InvalidParameterValue ''Invalid wkt format''"] 3
  have d: "input_to_point sample_lib (wkt_input (''POINT(10'' @ [LF] @ ''20)'')) =
           Inl (InvalidParameterValue ''Invalid wkt format'')"
    by blast
  from a b d show ?thesis by blast
qed

subsection \<open>C3: the corners of the extent\<close>

text \<open>
  C3: for a payload of four values in the order (xmin, xmax, ymin, ymax) that \<open>float\<close>
  converts, \<open>input_to_extent\<close> returns the rectangle built by
  \<open>QgsRectangle(xmin, ymin, xmax, ymax)\<close>, paired with the CRS built from the declared
  CRS string. \<open>isValid\<close> is never consulted: replacing it changes nothing.
\<close>

theorem input_to_extent_reorders_corners:
  assumes "data inp = [xmin, xmax, ymin, ymax]"
    and "to_float N xmin = Some a" and "to_float N xmax = Some b"
    and "to_float N ymin = Some c" and "to_float N ymax = Some d"
  shows "input_to_extent L N inp =
           Inr (QgsReferencedRectangle (QgsRectangle N a c b d)
                  (QgsCoordinateReferenceSystem L (crs inp))) \<and>
         input_to_extent (L\<lparr>isValid := v\<rparr>) N inp = input_to_extent L N inp"
  using assms by (simp add: input_to_extent_def float_at_def Let_def)

text \<open>The run of the specification, with a CRS string that is not valid.\<close>

theorem input_to_extent_reorders_corners_witness:
  "input_to_extent sample_lib sample_num
     \<lparr> data = [PyInt 1, PyInt 3, PyInt 5, PyInt 9],
       data_format = \<lparr> mime_type = [] \<rparr>, crs = ''NOT_A_CRS'' \<rparr> =
   Inr (QgsReferencedRectangle (1, 5, 3, 9) SInvalid)"
proof -
  let ?inp = "\<lparr> data = [PyInt 1, PyInt 3, PyInt 5, PyInt 9],
                data_format = \<lparr> mime_type = [] \<rparr>, crs = ''NOT_A_CRS'' \<rparr>"
  have 0: "data ?inp = [PyInt 1, PyInt 3, PyInt 5, PyInt 9]" by simp
  have 1: "to_float sample_num (PyInt 1) = Some 1" "to_float sample_num (PyInt 3) = Some 3"
    "to_float sample_num (PyInt 5) = Some 5" "to_float sample_num (PyInt 9) = Some 9"
    by (simp_all add: sample_num_def)
  from input_to_extent_reorders_corners[OF 0 1, of sample_lib]
  show ?thesis by (simp add: sample_num_def sample_lib_def)
qed

end
